theory Spec2Isabelle
  imports Main "HOL-Library.AList"
begin

section \<open>Values\<close>

subsection \<open>Configuration values and the per-file options\<close>

text \<open>
  A file entry of the configuration is a Python dict read from YAML. Its values are the
  scalars YAML produces for the documented options: null, booleans, integers and strings.
\<close>

datatype yval = YNone | YBool bool | YInt int | YStr string

type_synonym filespec = "string \<rightharpoonup> yval"

text \<open>Python truthiness of such a value, as tested by \<^verbatim>\<open>x or default\<close> and \<^verbatim>\<open>if x:\<close>.\<close>

fun truthy :: "yval \<Rightarrow> bool" where
  "truthy YNone = False"
| "truthy (YBool b) = b"
| "truthy (YInt i) = (i \<noteq> 0)"
| "truthy (YStr s) = (s \<noteq> [])"

text \<open>\<^verbatim>\<open>file.get(k) or d\<close>: a missing key reads as None, and any falsy value gives way to d.\<close>

definition get_or :: "filespec \<Rightarrow> string \<Rightarrow> yval \<Rightarrow> yval" where
  "get_or file k d = (case file k of None \<Rightarrow> d | Some v \<Rightarrow> if truthy v then v else d)"

subsection \<open>Values of the JSON reader\<close>

text \<open>
  A Python \<^verbatim>\<open>Decimal\<close> that is a number: sign (True for negative), the coefficient's digits
  and the exponent, as \<^verbatim>\<open>Decimal.as_tuple()\<close> shows them.
\<close>

datatype decimal = Decimal (dsign: bool) (dint: string) (dexp: int)

text \<open>
  The values ijson attaches to its events: None (structure events and null), booleans,
  integers, Decimals for the other numbers, and strings (map keys and string values).
\<close>

datatype scalar = SNone | SBool bool | SInt int | SDecimal decimal | SStr string

text \<open>The objects built from events; a dict keeps its insertion order.\<close>

datatype pyobj = Scalar scalar | PList "pyobj list" | PDict "(scalar \<times> pyobj) list"

type_synonym event = "string \<times> string \<times> scalar"

subsection \<open>Errors, effects and the outside world\<close>

datatype error =
    KeyError string
  | TypeError
  | ValueError
  | TransportError

text \<open>
  What the program does to the outside, in order: a line on standard output (the arguments
  of \<^verbatim>\<open>print\<close>), a time-stamped progress line (\<^verbatim>\<open>print_progress\<close>, the time left out), the
  per-chunk line of the JSON reader (url and chunk number, the time left out), a call of
  \<^verbatim>\<open>file_handle(url, compression)\<close>, and a call of
  \<^verbatim>\<open>session.run(cql, dict={'rows': rows}).consume()\<close>.
\<close>

datatype effect =
    Stdout "yval list"
  | Progress string string
  | ChunkLine yval nat
  | Opened yval yval
  | Executed yval "pyobj list"

text \<open>The calls of \<^verbatim>\<open>file_handle\<close> among the effects, and the batches sent, in order.\<close>

fun transport_calls :: "effect list \<Rightarrow> (yval \<times> yval) list" where
  "transport_calls [] = []"
| "transport_calls (Opened u c # es) = (u, c) # transport_calls es"
| "transport_calls (e # es) = transport_calls es"

fun batches :: "effect list \<Rightarrow> pyobj list list" where
  "batches [] = []"
| "batches (Executed q rows # es) = rows # batches es"
| "batches (e # es) = batches es"

text \<open>The branch \<^verbatim>\<open>file_handle\<close> takes on its compression argument.\<close>

datatype codec = Gzip | Zip | Plain

text \<open>
  An opened stream, as the two parsing libraries see it: for the CSV reader the first line
  (what \<^verbatim>\<open>readline\<close> returns, as text) and the remaining lines, each already cut into its
  fields by the tokenizer of pandas; for the JSON reader the events of \<^verbatim>\<open>ijson.parse\<close>.
\<close>

record stream =
  header_line :: string
  data_lines :: "string list list"
  json_events :: "event list"

text \<open>
  The outside world. \<open>fetch\<close> answers an attempt to open a url under a codec with a stream,
  or with None when the opening fails; the scheme dispatch of \<^verbatim>\<open>file_handle\<close> (object store,
  local file, anything else) only selects where the bytes come from and is part of this
  answer. \<open>surplus\<close> is what the installed pandas does, under the arguments of \<^verbatim>\<open>load_csv\<close>,
  with a line that has more fields than there are names (given their number): None when
  it drops the line, the documented effect of \<^verbatim>\<open>error_bad_lines=False\<close>, or the fields it
  keeps, for a release that cuts such a line to the named columns.
\<close>

record world =
  fetch :: "string \<Rightarrow> codec \<Rightarrow> stream option"
  surplus :: "nat \<Rightarrow> string list \<Rightarrow> string list option"

section \<open>Strings\<close>

function str_nat :: "nat \<Rightarrow> string" where
  "str_nat n = (if n < 10 then [''0123456789'' ! n] else str_nat (n div 10) @ [''0123456789'' ! (n mod 10)])"
  by pat_completeness auto
termination
  by (relation "measure (\<lambda>n. n)") auto

definition str_int :: "int \<Rightarrow> string" where
  "str_int i = (if i < 0 then ''-'' @ str_nat (nat (- i)) else str_nat (nat i))"

text \<open>The format \<^verbatim>\<open>"%+d"\<close>.\<close>

definition signed_int :: "int \<Rightarrow> string" where
  "signed_int i = (if i < 0 then ''-'' @ str_nat (nat (- i)) else ''+'' @ str_nat (nat i))"

text \<open>\<^verbatim>\<open>str\<close> of a configuration value, as \<^verbatim>\<open>"{}".format\<close> renders it.\<close>

fun yval_str :: "yval \<Rightarrow> string" where
  "yval_str YNone = ''None''"
| "yval_str (YBool b) = (if b then ''True'' else ''False'')"
| "yval_str (YInt i) = str_int i"
| "yval_str (YStr s) = s"

text \<open>\<^verbatim>\<open>Decimal.__str__\<close> (scientific string) for a number, with the default context.\<close>

definition decimal_str :: "decimal \<Rightarrow> string" where
  "decimal_str d =
     (let len = int (length (dint d));
          leftdigits = dexp d + len;
          dotplace = (if dexp d \<le> 0 \<and> leftdigits > - 6 then leftdigits else 1);
          intpart = (if dotplace \<le> 0 then ''0''
                     else if dotplace \<ge> len then dint d @ replicate (nat (dotplace - len)) (CHR ''0'')
                     else take (nat dotplace) (dint d));
          fracpart = (if dotplace \<le> 0 then ''.'' @ replicate (nat (- dotplace)) (CHR ''0'') @ dint d
                      else if dotplace \<ge> len then ''''
                      else ''.'' @ drop (nat dotplace) (dint d));
          exp = (if leftdigits = dotplace then '''' else ''E'' @ signed_int (leftdigits - dotplace))
      in (if dsign d then ''-'' else '''') @ intpart @ fracpart @ exp)"

text \<open>\<^verbatim>\<open>str(value)\<close> on the value of an event.\<close>

fun py_str :: "scalar \<Rightarrow> string" where
  "py_str SNone = ''None''"
| "py_str (SBool b) = (if b then ''True'' else ''False'')"
| "py_str (SInt i) = str_int i"
| "py_str (SDecimal d) = decimal_str d"
| "py_str (SStr s) = s"

text \<open>\<^verbatim>\<open>str.strip()\<close> on ASCII text.\<close>

definition is_space :: "char \<Rightarrow> bool" where
  "is_space c = (c \<in> set [CHR 0x09, CHR 0x0A, CHR 0x0B, CHR 0x0C, CHR 0x0D,
                             CHR 0x1C, CHR 0x1D, CHR 0x1E, CHR 0x1F, CHR 0x20])"

definition py_strip :: "string \<Rightarrow> string" where
  "py_strip s = rev (dropWhile is_space (rev (dropWhile is_space s)))"

text \<open>
  \<^verbatim>\<open>s.split(sep)\<close> for a non-empty separator; \<open>acc\<close> is the piece being read. (Python raises
  ValueError on an empty separator; the callers below never pass one.)
\<close>

function split_from :: "string \<Rightarrow> string \<Rightarrow> string \<Rightarrow> string list" where
  "split_from sep acc [] = [acc]"
| "split_from sep acc (c # cs) =
     (if sep \<noteq> [] \<and> take (length sep) (c # cs) = sep
      then acc # split_from sep [] (drop (length sep) (c # cs))
      else split_from sep (acc @ [c]) cs)"
  by pat_completeness auto
termination
  by (relation "measure (\<lambda>(sep, acc, s). length s)") auto

definition py_split :: "string \<Rightarrow> string \<Rightarrow> string list" where
  "py_split sep s = split_from sep [] s"

text \<open>
  \<^verbatim>\<open>pathlib.Path(url).name\<close> on a POSIX system: the last component of the path, empty
  components and \<^verbatim>\<open>.\<close> components dropped.
\<close>

definition path_name :: "string \<Rightarrow> string" where
  "path_name u =
     (let parts = filter (\<lambda>c. c \<noteq> [] \<and> c \<noteq> ''.'') (py_split ''/'' u)
      in if parts = [] then [] else last parts)"

text \<open>\<^verbatim>\<open>pathlib.Path(url).suffixes\<close>.\<close>

definition suffixes :: "string \<Rightarrow> string list" where
  "suffixes u =
     (let name = path_name u in
      if name \<noteq> [] \<and> last name = CHR ''.'' then []
      else map (\<lambda>suffix. ''.'' @ suffix)
             (tl (py_split ''.'' (dropWhile (\<lambda>c. c = CHR ''.'') name))))"

section \<open>Parameter resolution\<close>

definition supported_compression_formats :: "yval list" where
  "supported_compression_formats = [YStr ''gzip'', YStr ''zip'', YStr ''none'']"

record params =
  skip_records :: yval
  compression :: yval
  url :: yval
  cql :: yval
  chunk_size :: yval
  field_sep :: yval

text \<open>
  \<^verbatim>\<open>LocalServer.get_params\<close>. The report of an unsupported compression is printed before
  \<^verbatim>\<open>file['url']\<close> and \<^verbatim>\<open>file['cql']\<close> are read, each of which raises KeyError when missing.
\<close>

definition get_params :: "filespec \<Rightarrow> effect list \<times> (error + params)" where
  "get_params file =
     (let skip = get_or file ''skip_records'' (YInt 0);
          cmpr = get_or file ''compression'' (YStr ''none'');
          out = (if cmpr \<notin> set supported_compression_formats
                 then [Stdout [YStr ''Unsupported compression format: {}'', cmpr]] else [])
      in case file ''url'' of
           None \<Rightarrow> (out, Inl (KeyError ''url''))
         | Some u \<Rightarrow>
             (case file ''cql'' of
                None \<Rightarrow> (out, Inl (KeyError ''cql''))
              | Some q \<Rightarrow>
                  (out, Inr \<lparr> skip_records = skip, compression = cmpr, url = u, cql = q,
                              chunk_size = get_or file ''chunk_size'' (YInt 1000),
                              field_sep = get_or file ''field_separator'' (YStr '','') \<rparr>)))"

section \<open>Opening a stream\<close>

definition codec_of :: "yval \<Rightarrow> codec" where
  "codec_of cmpr =
     (if cmpr = YStr ''gzip'' then Gzip
      else if cmpr = YStr ''zip'' then Zip
      else Plain)"

text \<open>
  \<^verbatim>\<open>file_handle\<close>. A url that is not a string makes \<^verbatim>\<open>urlparse\<close> or the opener raise; the
  model gives TypeError for all of these.
\<close>

definition file_handle :: "world \<Rightarrow> yval \<Rightarrow> yval \<Rightarrow> effect list \<times> (error + stream)" where
  "file_handle w u cmpr =
     ([Opened u cmpr],
      (case u of
         YStr path \<Rightarrow>
           (case fetch w path (codec_of cmpr) of
              None \<Rightarrow> Inl TransportError
            | Some openfile \<Rightarrow> Inr openfile)
       | _ \<Rightarrow> Inl TypeError))"

section \<open>The JSON reader\<close>

text \<open>
  \<^verbatim>\<open>LocalServer.ijson_decimal_as_float\<close>: a generator over the (prefix, event, value)
  triples that replaces the value of every number event by \<^verbatim>\<open>str(value)\<close>.
\<close>

definition ijson_decimal_as_float :: "event list \<Rightarrow> event list" where
  "ijson_decimal_as_float events =
     map (\<lambda>(prefix, event, v). (prefix, event, if event = ''number'' then SStr (py_str v) else v))
       events"

subsection \<open>The object builder of ijson\<close>

text \<open>
  \<^verbatim>\<open>ijson.common.ObjectBuilder\<close> keeps a stack of the containers being filled and the last
  map key. A container under construction is a frame; with it the stack keeps the key that
  was current when the container was started, that is the key under which the container
  sits in the frame below it (Python stores the empty container there at once and fills
  it through the reference).
\<close>

datatype frame = MapFrame "(scalar \<times> pyobj) list" | ArrFrame "pyobj list"

record builder =
  containers :: "(scalar \<times> frame) list"
  key :: scalar
  root :: "pyobj option"

definition new_builder :: builder where
  "new_builder = \<lparr> containers = [], key = SNone, root = None \<rparr>"

fun frame_obj :: "frame \<Rightarrow> pyobj" where
  "frame_obj (MapFrame m) = PDict m"
| "frame_obj (ArrFrame a) = PList a"

text \<open>The setter of a frame: \<^verbatim>\<open>mappable[self.key] = value\<close> or \<^verbatim>\<open>array.append\<close>.\<close>

fun put :: "scalar \<Rightarrow> pyobj \<Rightarrow> frame \<Rightarrow> frame" where
  "put k v (MapFrame m) = MapFrame (AList.update k v m)"
| "put k v (ArrFrame a) = ArrFrame (a @ [v])"

text \<open>\<^verbatim>\<open>self.containers[-1](value)\<close>, under the key \<open>k\<close>; the bottom setter sets the result.\<close>

definition set_top :: "scalar \<Rightarrow> pyobj \<Rightarrow> builder \<Rightarrow> builder" where
  "set_top k v b =
     (case containers b of
        [] \<Rightarrow> b\<lparr> root := Some v \<rparr>
      | (k0, f) # below \<Rightarrow> b\<lparr> containers := (k0, put k v f) # below \<rparr>)"

text \<open>\<^verbatim>\<open>ObjectBuilder.event\<close>. Closing a container stores it, complete, where it belongs.\<close>

definition builder_event :: "builder \<Rightarrow> string \<Rightarrow> scalar \<Rightarrow> builder" where
  "builder_event b event v =
     (if event = ''map_key'' then b\<lparr> key := v \<rparr>
      else if event = ''start_map'' then b\<lparr> containers := (key b, MapFrame []) # containers b \<rparr>
      else if event = ''start_array'' then b\<lparr> containers := (key b, ArrFrame []) # containers b \<rparr>
      else if event = ''end_array'' \<or> event = ''end_map'' then
        (case containers b of
           [] \<Rightarrow> b
         | (k0, f) # below \<Rightarrow> set_top k0 (frame_obj f) (b\<lparr> containers := below \<rparr>))
      else set_top (key b) (Scalar v) b)"

text \<open>
  \<^verbatim>\<open>builder.value\<close>: the object at the bottom, with the containers still open seen in their
  present state.
\<close>

fun close_all :: "(scalar \<times> frame) list \<Rightarrow> pyobj option \<Rightarrow> pyobj option" where
  "close_all [] r = r"
| "close_all [(k0, f)] r = Some (frame_obj f)"
| "close_all ((k0, f) # (k1, g) # below) r = close_all ((k1, put k0 (frame_obj f) g) # below) r"

definition builder_value :: "builder \<Rightarrow> pyobj" where
  "builder_value b = (case close_all (containers b) (root b) of None \<Rightarrow> Scalar SNone | Some v \<Rightarrow> v)"

subsection \<open>The items under a prefix\<close>

text \<open>
  \<^verbatim>\<open>ijson.common.items(events, prefix)\<close>: outside an object, an event at the prefix either
  starts an object or yields its scalar value; inside, every event up to the closing one
  at the prefix goes to the builder. A stream that ends inside an object yields no more.
\<close>

datatype items_state = Scanning | Building builder string

definition end_event_of :: "string \<Rightarrow> string" where
  "end_event_of event = (if event = ''start_map'' then ''end_map'' else ''end_array'')"

fun items_from :: "string \<Rightarrow> items_state \<Rightarrow> event list \<Rightarrow> pyobj list" where
  "items_from prefix st [] = []"
| "items_from prefix Scanning ((current, event, v) # events) =
     (if current = prefix then
        (if event = ''start_map'' \<or> event = ''start_array'' then
           items_from prefix (Building (builder_event new_builder event v) (end_event_of event)) events
         else Scalar v # items_from prefix Scanning events)
      else items_from prefix Scanning events)"
| "items_from prefix (Building b end_event) ((current, event, v) # events) =
     (if (current, event) = (prefix, end_event) then
        builder_value b # items_from prefix Scanning events
      else items_from prefix (Building (builder_event b event v) end_event) events)"

definition items :: "event list \<Rightarrow> string \<Rightarrow> pyobj list" where
  "items events prefix = items_from prefix Scanning events"

subsection \<open>Pooling the items into chunks\<close>

text \<open>\<^verbatim>\<open>rec_num > params['skip_records']\<close>: an int against a configuration value.\<close>

fun py_gt :: "int \<Rightarrow> yval \<Rightarrow> error + bool" where
  "py_gt i (YInt k) = Inr (i > k)"
| "py_gt i (YBool b) = Inr (i > (if b then 1 else 0))"
| "py_gt i YNone = Inl TypeError"
| "py_gt i (YStr s) = Inl TypeError"

text \<open>\<^verbatim>\<open>len(rows) == params['chunk_size']\<close>.\<close>

fun py_eq :: "int \<Rightarrow> yval \<Rightarrow> bool" where
  "py_eq i (YInt k) = (i = k)"
| "py_eq i (YBool b) = (i = (if b then 1 else 0))"
| "py_eq i YNone = False"
| "py_eq i (YStr s) = False"

text \<open>
  The \<^verbatim>\<open>while not halt\<close> loop of \<^verbatim>\<open>load_json\<close> over what \<^verbatim>\<open>next(items, None)\<close> returns: the end
  of the items, or an item that is None, halts it. It returns the chunk number and the rows
  not yet sent.
\<close>

fun json_loop ::
  "params \<Rightarrow> pyobj list \<Rightarrow> nat \<Rightarrow> nat \<Rightarrow> pyobj list \<Rightarrow> effect list \<times> (error + nat \<times> pyobj list)"
where
  "json_loop p [] recnum chunk_num rows = ([], Inr (chunk_num, rows))"
| "json_loop p (row # its) recnum chunk_num rows =
     (if row = Scalar SNone then ([], Inr (chunk_num, rows))
      else
        (case py_gt (int (recnum + 1)) (skip_records p) of
           Inl e \<Rightarrow> ([], Inl e)
         | Inr past \<Rightarrow>
             if past then
               (if py_eq (int (length (rows @ [row]))) (chunk_size p) then
                  (case json_loop p its (recnum + 1) (chunk_num + 1) [] of
                     (out, r) \<Rightarrow>
                       (ChunkLine (url p) chunk_num # Executed (cql p) (rows @ [row]) # out, r))
                else json_loop p its (recnum + 1) chunk_num (rows @ [row]))
             else json_loop p its (recnum + 1) chunk_num rows))"

text \<open>\<^verbatim>\<open>LocalServer.load_json\<close>; None as result is a normal return.\<close>

definition load_json :: "world \<Rightarrow> filespec \<Rightarrow> effect list \<times> error option" where
  "load_json w file =
     (case get_params file of
        (out, Inl e) \<Rightarrow> (out, Some e)
      | (out, Inr p) \<Rightarrow>
          (case file_handle w (url p) (compression p) of
             (out1, Inl e) \<Rightarrow> (out @ out1, Some e)
           | (out1, Inr openfile) \<Rightarrow>
               (case json_loop p (items (ijson_decimal_as_float (json_events openfile)) ''item'') 0 0 [] of
                  (out2, Inl e) \<Rightarrow> (out @ out1 @ out2, Some e)
                | (out2, Inr (chunk_num, rows)) \<Rightarrow>
                    (out @ out1 @ out2 @
                       (if length rows > 0
                        then [ChunkLine (url p) chunk_num, Executed (cql p) rows] else []),
                     None))))"

section \<open>The CSV reader\<close>

subsection \<open>The chunked reader of pandas\<close>

text \<open>
  \<^verbatim>\<open>pd.read_csv\<close> as \<^verbatim>\<open>load_csv\<close> calls it, on lines the tokenizer has already cut into
  fields. The keyword arguments decide what is modelled:
  \<^item> \<^verbatim>\<open>skiprows=k\<close> drops the first k lines;
  \<^item> \<^verbatim>\<open>names=header, header=None\<close> fixes the columns: a line with fewer fields than names is
    filled up with missing values; a line with more fields than names is left to
    \<open>surplus\<close> (see \<open>world\<close>);
  \<^item> \<^verbatim>\<open>dtype=str\<close> keeps every field as text, except that an empty field and the default
    NA strings are read as the missing value NaN;
  \<^item> \<^verbatim>\<open>chunksize=c\<close> returns an iterator of frames of c rows, the last one shorter; when
    there is no row at all, the first read returns one empty frame.
\<close>

datatype cell = NaN | Text string

definition na_values :: "string list" where
  "na_values = ['''', ''#N/A'', ''#N/A N/A'', ''#NA'', ''-1.#IND'', ''-1.#QNAN'', ''-NaN'', ''-nan'',
                ''1.#IND'', ''1.#QNAN'', ''<NA>'', ''N/A'', ''NA'', ''NULL'', ''NaN'', ''n/a'', ''nan'',
                ''null'']"

definition to_cell :: "string \<Rightarrow> cell" where
  "to_cell s = (if s \<in> set na_values then NaN else Text s)"

definition parse_line :: "nat \<Rightarrow> string list \<Rightarrow> cell list" where
  "parse_line width flds = map to_cell flds @ replicate (width - length flds) NaN"

function chunks :: "nat \<Rightarrow> 'a list \<Rightarrow> 'a list list" where
  "chunks n [] = []"
| "chunks n (x # xs) = (if n = 0 then [] else take n (x # xs) # chunks n (drop n (x # xs)))"
  by pat_completeness auto
termination
  by (relation "measure (\<lambda>(n, xs). length xs)") auto

definition accepted :: "(nat \<Rightarrow> string list \<Rightarrow> string list option) \<Rightarrow> nat \<Rightarrow> string list list \<Rightarrow> string list list" where
  "accepted bad width lines =
     List.map_filter (\<lambda>flds. if length flds \<le> width then Some flds else bad width flds) lines"

definition read_csv ::
  "(nat \<Rightarrow> string list \<Rightarrow> string list option) \<Rightarrow> string list \<Rightarrow> nat \<Rightarrow> nat \<Rightarrow> string list list
     \<Rightarrow> cell list list list"
where
  "read_csv bad names skiprows chunksize lines =
     (let table = map (parse_line (length names))
                    (accepted bad (length names) (drop skiprows lines))
      in if table = [] then [[]] else chunks chunksize table)"

text \<open>\<^verbatim>\<open>rows.fillna(value="")\<close> and \<^verbatim>\<open>.to_dict('records')\<close> on a frame with the given columns.\<close>

definition fillna :: "string \<Rightarrow> cell list list \<Rightarrow> string list list" where
  "fillna v rows = map (map (\<lambda>c. case c of NaN \<Rightarrow> v | Text s \<Rightarrow> s)) rows"

definition to_dict_records :: "string list \<Rightarrow> string list list \<Rightarrow> pyobj list" where
  "to_dict_records names rows =
     map (\<lambda>row. PDict (zip (map SStr names) (map (\<lambda>s. Scalar (SStr s)) row))) rows"

subsection \<open>Loading a CSV file\<close>

text \<open>
  The arguments pandas refuses before it reads: duplicate names, a chunk size that is not
  an integer of at least 1, and rows to skip that are not given as an integer (a negative
  number skips nothing). The model gives ValueError for each.
\<close>

definition csv_arguments :: "string list \<Rightarrow> params \<Rightarrow> error + nat \<times> nat" where
  "csv_arguments header p =
     (case (skip_records p, chunk_size p) of
        (YInt k, YInt c) \<Rightarrow>
          if distinct header \<and> c \<ge> 1 then Inr (nat k, nat c) else Inl ValueError
      | _ \<Rightarrow> Inl ValueError)"

text \<open>
  \<^verbatim>\<open>LocalServer.load_csv\<close>. Both ways of reading the header line give its text; it is
  stripped and split on the separator, which raises TypeError when the separator is not a
  string. Every frame of the iterator is sent as one batch.
\<close>

definition load_csv :: "world \<Rightarrow> filespec \<Rightarrow> effect list \<times> error option" where
  "load_csv w file =
     (case get_params file of
        (out, Inl e) \<Rightarrow> (out, Some e)
      | (out, Inr p) \<Rightarrow>
          (case file_handle w (url p) (compression p) of
             (out1, Inl e) \<Rightarrow> (out @ out1, Some e)
           | (out1, Inr openfile) \<Rightarrow>
               (case field_sep p of
                  YStr sep \<Rightarrow>
                    (let header = py_split sep (py_strip (header_line openfile)) in
                     case csv_arguments header p of
                       Inl e \<Rightarrow> (out @ out1, Some e)
                     | Inr (skiprows, chunksize) \<Rightarrow>
                         (out @ out1 @
                            map (\<lambda>rows. Executed (cql p) (to_dict_records header (fillna '''' rows)))
                              (read_csv (surplus w) header skiprows chunksize (data_lines openfile)),
                          None))
                | _ \<Rightarrow> (out @ out1, Some TypeError))))"

section \<open>The orchestrator\<close>

text \<open>
  \<^verbatim>\<open>LocalServer.load_file\<close>. The progress line before the dispatch concatenates quotes to
  the url, which raises TypeError unless the url is a string; the line after it is printed
  when the reader returns.
\<close>

definition quoted :: "string \<Rightarrow> string" where
  "quoted u = [CHR 0x27] @ u @ [CHR 0x27]"

text \<open>The two progress lines around what a reader did.\<close>

definition with_progress :: "string \<Rightarrow> effect list \<times> error option \<Rightarrow> effect list \<times> error option" where
  "with_progress u r =
     (case r of
        (out, Some e) \<Rightarrow> (Progress ''Reading file:'' (quoted u) # out, Some e)
      | (out, None) \<Rightarrow>
          (Progress ''Reading file:'' (quoted u) # out @
             [Progress ''Completed file:'' (quoted u)], None))"

definition load_file :: "world \<Rightarrow> filespec \<Rightarrow> effect list \<times> error option" where
  "load_file w file =
     (if truthy (get_or file ''skip_file'' (YBool False)) then
        (case file ''url'' of
           None \<Rightarrow> ([], Some (KeyError ''url''))
         | Some u \<Rightarrow> ([Stdout [YStr (''Skipping this file: '' @ yval_str u)]], None))
      else
        (case file ''url'' of
           None \<Rightarrow> ([], Some (KeyError ''url''))
         | Some (YStr u) \<Rightarrow>
             (let type = get_or file ''type'' (YStr ''NA'') in
              with_progress u
                (if type \<noteq> YStr ''NA'' then
                   (if type = YStr ''csv'' then load_csv w file
                    else if type = YStr ''json'' then load_json w file
                    else ([Stdout [YStr (''Error! Can'' @ [CHR 0x27] @
                                         ''t process file because unknown type''),
                                   type, YStr ''was specified'']], None))
                 else
                   (let file_suffixes = suffixes u in
                    if ''.csv'' \<in> set file_suffixes then load_csv w file
                    else if ''.json'' \<in> set file_suffixes then load_json w file
                    else load_csv w file)))
         | Some _ \<Rightarrow> ([], Some TypeError)))"

text \<open>\<^verbatim>\<open>config['basepath'] + file['url']\<close>: strings concatenate, integers and booleans add.\<close>

fun py_add :: "yval \<Rightarrow> yval \<Rightarrow> error + yval" where
  "py_add (YStr a) (YStr b) = Inr (YStr (a @ b))"
| "py_add (YInt a) (YInt b) = Inr (YInt (a + b))"
| "py_add (YInt a) (YBool b) = Inr (YInt (a + (if b then 1 else 0)))"
| "py_add (YBool a) (YInt b) = Inr (YInt ((if a then 1 else 0) + b))"
| "py_add (YBool a) (YBool b) = Inr (YInt ((if a then 1 else 0) + (if b then 1 else 0)))"
| "py_add _ _ = Inl TypeError"

text \<open>
  The loop of \<^verbatim>\<open>main\<close> over the files, in their order; \<open>basepath\<close> is the entry of the
  configuration when it has one. An exception ends the run.
\<close>

fun main_files :: "world \<Rightarrow> yval option \<Rightarrow> filespec list \<Rightarrow> effect list \<times> error option" where
  "main_files w basepath [] = ([], None)"
| "main_files w basepath (file # files) =
     (case (case basepath of
              None \<Rightarrow> Inr file
            | Some b \<Rightarrow>
                (case file ''url'' of
                   None \<Rightarrow> Inl (KeyError ''url'')
                 | Some u \<Rightarrow>
                     (case py_add b u of Inl e \<Rightarrow> Inl e | Inr v \<Rightarrow> Inr (file(''url'' \<mapsto> v)))))
      of
        Inl e \<Rightarrow> ([], Some e)
      | Inr file' \<Rightarrow>
          (case load_file w file' of
             (out, Some e) \<Rightarrow> (out, Some e)
           | (out, None) \<Rightarrow>
               (case main_files w basepath files of (out2, r) \<Rightarrow> (out @ out2, r))))"

section \<open>Sample inputs\<close>

text \<open>
  The events of the JSON text \<^verbatim>\<open>[{"a": 3.14000000000000012}]\<close>, and a stream that holds them
  and, read as CSV, the header \<^verbatim>\<open>id,name\<close> followed by the lines \<^verbatim>\<open>1,Alice\<close>, \<^verbatim>\<open>2,Bob\<close> and \<^verbatim>\<open>3\<close>.
\<close>

definition pi_events :: "event list" where
  "pi_events =
     [('''', ''start_array'', SNone),
      (''item'', ''start_map'', SNone),
      (''item'', ''map_key'', SStr ''a''),
      (''item.a'', ''number'', SDecimal (Decimal False ''314000000000000012'' (- 17))),
      (''item'', ''end_map'', SNone),
      ('''', ''end_array'', SNone)]"

definition sample_stream :: stream where
  "sample_stream =
     \<lparr> header_line = ''id,name'' @ [CHR 0x0A],
       data_lines = [[''1'', ''Alice''], [''2'', ''Bob''], [''3'']],
       json_events = pi_events \<rparr>"



text \<open>A world in which every url opens as the sample stream, and one in which every url
  opens as a stream without data: the header line alone, or the empty array.\<close>

definition sample_world :: world where
  "sample_world = \<lparr> fetch = (\<lambda>u c. Some sample_stream), surplus = (\<lambda>width flds. None) \<rparr>"

definition bare_world :: world where
  "bare_world =
     \<lparr> fetch = (\<lambda>u c. Some \<lparr> header_line = ''id,name'' @ [CHR 0x0A], data_lines = [],
                               json_events = [('''', ''start_array'', SNone),
                                              ('''', ''end_array'', SNone)] \<rparr>),
       surplus = (\<lambda>width flds. None) \<rparr>"

section \<open>Notions used in the statements\<close>

text \<open>
  The record the CSV reader sends for a line that it keeps: the names paired, in order, with
  the fields as text, where a field that reads as missing and every field the line lacks
  is the empty string.
\<close>

definition record_of :: "string list \<Rightarrow> string list \<Rightarrow> pyobj" where
  "record_of header flds =
     PDict (zip (map SStr header)
              (map (\<lambda>s. Scalar (SStr (if s \<in> set na_values then '''' else s))) flds @
               replicate (length header - length flds) (Scalar (SStr ''''))))"

text \<open>The three lines \<^verbatim>\<open>load_file\<close> prints for a file whose declared type it does not know.\<close>

definition unknown_type_report :: "string \<Rightarrow> yval \<Rightarrow> effect list" where
  "unknown_type_report u t =
     [Progress ''Reading file:'' (quoted u),
      Stdout [YStr (''Error! Can'' @ [CHR 0x27] @ ''t process file because unknown type''), t,
              YStr ''was specified''],
      Progress ''Completed file:'' (quoted u)]"

section \<open>Parameter resolution: defaults\<close>

lemma get_params_result:
  assumes "file ''url'' = Some u" and "file ''cql'' = Some q"
  shows "snd (get_params file) =
           Inr \<lparr> skip_records = get_or file ''skip_records'' (YInt 0),
                 compression = get_or file ''compression'' (YStr ''none''),
                 url = u, cql = q,
                 chunk_size = get_or file ''chunk_size'' (YInt 1000),
                 field_sep = get_or file ''field_separator'' (YStr '','') \<rparr>"
  using assms by (simp add: get_params_def Let_def)

lemma get_params_output:
  "fst (get_params file) =
     (if get_or file ''compression'' (YStr ''none'') \<in> set supported_compression_formats then []
      else [Stdout [YStr ''Unsupported compression format: {}'',
                    get_or file ''compression'' (YStr ''none'')]])"
  by (simp add: get_params_def Let_def split: option.splits)

text \<open>
  Claim C7. For a file entry that declares \<^verbatim>\<open>url\<close> and \<^verbatim>\<open>cql\<close> (the query), parameter resolution
  succeeds, keeps both, and gives every optional field that is absent its default:
  \<^verbatim>\<open>skip_records\<close> 0, \<^verbatim>\<open>chunk_size\<close> 1000, \<^verbatim>\<open>compression\<close> none, \<^verbatim>\<open>field_separator\<close> a comma.
  When the declared \<^verbatim>\<open>chunk_size\<close> and \<^verbatim>\<open>skip_records\<close>, if any, are integers that are not
  negative, as the data model of the file entry has them, the resolved \<^verbatim>\<open>chunk_size\<close> is at
  least 1 and the resolved \<^verbatim>\<open>skip_records\<close> at least 0.
\<close>

theorem get_params_defaults:
  assumes "file ''url'' = Some u" and "file ''cql'' = Some q"
    and "file ''chunk_size'' = None \<or> (\<exists>c\<ge>0. file ''chunk_size'' = Some (YInt c))"
    and "file ''skip_records'' = None \<or> (\<exists>k\<ge>0. file ''skip_records'' = Some (YInt k))"
  shows "\<exists>p. snd (get_params file) = Inr p \<and> url p = u \<and> cql p = q
           \<and> (file ''skip_records'' = None \<longrightarrow> skip_records p = YInt 0)
           \<and> (file ''chunk_size'' = None \<longrightarrow> chunk_size p = YInt 1000)
           \<and> (file ''compression'' = None \<longrightarrow> compression p = YStr ''none'')
           \<and> (file ''field_separator'' = None \<longrightarrow> field_sep p = YStr '','')
           \<and> (\<exists>c\<ge>1. chunk_size p = YInt c) \<and> (\<exists>k\<ge>0. skip_records p = YInt k)"
proof -
  have chunk: "\<exists>c\<ge>1. get_or file ''chunk_size'' (YInt 1000) = YInt c"
    using assms(3) by (auto simp: get_or_def)
  have skip: "\<exists>k\<ge>0. get_or file ''skip_records'' (YInt 0) = YInt k"
    using assms(4) by (auto simp: get_or_def)
  show ?thesis
    using chunk skip by (simp add: get_params_result [OF assms(1,2)] get_or_def)
qed

theorem get_params_defaults_witness:
  "(\<exists>p. snd (get_params [''url'' \<mapsto> YStr ''a.csv'', ''cql'' \<mapsto> YStr ''Q'']) = Inr p
        \<and> url p = YStr ''a.csv'' \<and> cql p = YStr ''Q'' \<and> skip_records p = YInt 0
        \<and> chunk_size p = YInt 1000 \<and> compression p = YStr ''none'' \<and> field_sep p = YStr '','')
   \<and> (\<exists>p. snd (get_params [''url'' \<mapsto> YStr ''a.csv'', ''cql'' \<mapsto> YStr ''Q'',
                              ''chunk_size'' \<mapsto> YInt 50, ''skip_records'' \<mapsto> YInt 2]) = Inr p
        \<and> (\<exists>c\<ge>1. chunk_size p = YInt c) \<and> (\<exists>k\<ge>0. skip_records p = YInt k))"
  using get_params_defaults
    [of "[''url'' \<mapsto> YStr ''a.csv'', ''cql'' \<mapsto> YStr ''Q'']" "YStr ''a.csv''" "YStr ''Q''"]
    get_params_defaults
    [of "[''url'' \<mapsto> YStr ''a.csv'', ''cql'' \<mapsto> YStr ''Q'', ''chunk_size'' \<mapsto> YInt 50,
          ''skip_records'' \<mapsto> YInt 2]" "YStr ''a.csv''" "YStr ''Q''"]
  by auto

section \<open>Parameter resolution: falsy declarations\<close>

text \<open>
  Claim C9. For a file entry that declares \<^verbatim>\<open>url\<close> and \<^verbatim>\<open>cql\<close>, an optional field declared with
  a falsy value (0, the empty string, false, null) is not rejected and not kept: resolution
  succeeds and the field has its default, 1000 for \<^verbatim>\<open>chunk_size\<close>, 0 for \<^verbatim>\<open>skip_records\<close>, a
  comma for \<^verbatim>\<open>field_separator\<close>, none for \<^verbatim>\<open>compression\<close>; for a falsy \<^verbatim>\<open>compression\<close> nothing is
  printed.
\<close>

theorem falsy_options_replaced:
  assumes "file ''url'' = Some u" and "file ''cql'' = Some q"
  shows "\<exists>p. snd (get_params file) = Inr p
           \<and> ((\<exists>v. file ''chunk_size'' = Some v \<and> \<not> truthy v) \<longrightarrow> chunk_size p = YInt 1000)
           \<and> ((\<exists>v. file ''skip_records'' = Some v \<and> \<not> truthy v) \<longrightarrow> skip_records p = YInt 0)
           \<and> ((\<exists>v. file ''field_separator'' = Some v \<and> \<not> truthy v) \<longrightarrow> field_sep p = YStr '','')
           \<and> ((\<exists>v. file ''compression'' = Some v \<and> \<not> truthy v) \<longrightarrow>
                  compression p = YStr ''none'' \<and> fst (get_params file) = [])"
  by (auto simp: get_params_result [OF assms] get_params_output get_or_def
      supported_compression_formats_def split: if_splits)

theorem falsy_options_replaced_witness:
  "\<exists>p. snd (get_params [''url'' \<mapsto> YStr ''a.csv'', ''cql'' \<mapsto> YStr ''Q'', ''chunk_size'' \<mapsto> YInt 0,
                          ''skip_records'' \<mapsto> YInt 0, ''field_separator'' \<mapsto> YStr '''',
                          ''compression'' \<mapsto> YStr '''']) = Inr p
       \<and> chunk_size p = YInt 1000 \<and> skip_records p = YInt 0 \<and> field_sep p = YStr '',''
       \<and> compression p = YStr ''none''
       \<and> fst (get_params [''url'' \<mapsto> YStr ''a.csv'', ''cql'' \<mapsto> YStr ''Q'', ''chunk_size'' \<mapsto> YInt 0,
                          ''skip_records'' \<mapsto> YInt 0, ''field_separator'' \<mapsto> YStr '''',
                          ''compression'' \<mapsto> YStr '''']) = []"
  using falsy_options_replaced
    [of "[''url'' \<mapsto> YStr ''a.csv'', ''cql'' \<mapsto> YStr ''Q'', ''chunk_size'' \<mapsto> YInt 0,
          ''skip_records'' \<mapsto> YInt 0, ''field_separator'' \<mapsto> YStr '''',
          ''compression'' \<mapsto> YStr '''']" "YStr ''a.csv''" "YStr ''Q''"]
  by auto

section \<open>Unsupported compression\<close>

text \<open>
  Claim C8. For a file entry that declares \<^verbatim>\<open>url\<close> (a string) and \<^verbatim>\<open>cql\<close>, and a \<^verbatim>\<open>compression\<close>
  that is given (truthy) and is none of gzip, zip, none: parameter resolution prints the
  report and returns the parameters, raising nothing and keeping the declared value; and
  \<^verbatim>\<open>file_handle\<close> takes the branch it takes for none, with the same result as for none.
\<close>

theorem unsupported_compression_continues:
  assumes "file ''url'' = Some (YStr u)" and "file ''cql'' = Some q"
    and "file ''compression'' = Some c" and "truthy c"
    and "c \<notin> set supported_compression_formats"
  shows "\<exists>p. get_params file = ([Stdout [YStr ''Unsupported compression format: {}'', c]], Inr p)
           \<and> url p = YStr u \<and> compression p = c
           \<and> codec_of (compression p) = Plain
           \<and> snd (file_handle w (url p) (compression p)) = snd (file_handle w (url p) (YStr ''none''))"
proof -
  have c: "get_or file ''compression'' (YStr ''none'') = c"
    using assms(3,4) by (simp add: get_or_def)
  have plain: "codec_of c = Plain"
    using assms(5) by (auto simp: codec_of_def supported_compression_formats_def)
  have "get_params file = (fst (get_params file), snd (get_params file))"
    by simp
  then show ?thesis
    using assms(5) plain
    by (auto simp: get_params_result [OF assms(1,2)] get_params_output c file_handle_def
        codec_of_def supported_compression_formats_def)
qed

theorem unsupported_compression_continues_witness:
  "\<exists>p. get_params [''url'' \<mapsto> YStr ''a.csv'', ''cql'' \<mapsto> YStr ''Q'', ''compression'' \<mapsto> YStr ''bz2'']
          = ([Stdout [YStr ''Unsupported compression format: {}'', YStr ''bz2'']], Inr p)
        \<and> snd (file_handle sample_world (url p) (compression p)) = Inr sample_stream"
  using unsupported_compression_continues
    [of "[''url'' \<mapsto> YStr ''a.csv'', ''cql'' \<mapsto> YStr ''Q'', ''compression'' \<mapsto> YStr ''bz2'']"
        "''a.csv''" "YStr ''Q''" "YStr ''bz2''" sample_world]
  by (auto simp: supported_compression_formats_def file_handle_def sample_world_def)

section \<open>Properties of the orchestrator\<close>

subsection \<open>Skipped files\<close>

text \<open>
  Claim C6. For a file entry whose \<^verbatim>\<open>skip_file\<close> is true (any truthy value), \<^verbatim>\<open>load_file\<close> calls
  \<^verbatim>\<open>file_handle\<close> not once and sends no batch; when the entry has a url, all it does is print
  the line that says so, and it returns normally.
\<close>

theorem skip_file_no_calls:
  assumes "file ''skip_file'' = Some v" and "truthy v"
  shows "transport_calls (fst (load_file w file)) = [] \<and> batches (fst (load_file w file)) = []
         \<and> (\<forall>u. file ''url'' = Some u \<longrightarrow>
               load_file w file = ([Stdout [YStr (''Skipping this file: '' @ yval_str u)]], None))"
  using assms by (auto simp: load_file_def get_or_def split: option.splits)

theorem skip_file_no_calls_witness:
  "transport_calls (fst (load_file sample_world
      [''url'' \<mapsto> YStr ''a.csv'', ''cql'' \<mapsto> YStr ''Q'', ''skip_file'' \<mapsto> YBool True])) = []
   \<and> batches (fst (load_file sample_world
      [''url'' \<mapsto> YStr ''a.csv'', ''cql'' \<mapsto> YStr ''Q'', ''skip_file'' \<mapsto> YBool True])) = []
   \<and> load_file sample_world
        [''url'' \<mapsto> YStr ''a.csv'', ''cql'' \<mapsto> YStr ''Q'', ''skip_file'' \<mapsto> YBool True]
       = ([Stdout [YStr ''Skipping this file: a.csv'']], None)"
  using skip_file_no_calls
    [of "[''url'' \<mapsto> YStr ''a.csv'', ''cql'' \<mapsto> YStr ''Q'', ''skip_file'' \<mapsto> YBool True]"
        "YBool True" sample_world]
  by simp

subsection \<open>Selecting the reader\<close>

lemma load_file_dispatch:
  assumes "file ''url'' = Some (YStr u)" and "\<not> truthy (get_or file ''skip_file'' (YBool False))"
  shows "load_file w file =
     with_progress u
       (if get_or file ''type'' (YStr ''NA'') \<noteq> YStr ''NA'' then
          (if get_or file ''type'' (YStr ''NA'') = YStr ''csv'' then load_csv w file
           else if get_or file ''type'' (YStr ''NA'') = YStr ''json'' then load_json w file
           else ([Stdout [YStr (''Error! Can'' @ [CHR 0x27] @ ''t process file because unknown type''),
                          get_or file ''type'' (YStr ''NA''), YStr ''was specified'']], None))
        else
          (if ''.csv'' \<in> set (suffixes u) then load_csv w file
           else if ''.json'' \<in> set (suffixes u) then load_json w file
           else load_csv w file))"
  using assms by (simp add: load_file_def Let_def)

text \<open>
  Claim C2, amended. For a file entry with a string url that is not skipped: a declared type
  csv or json selects that reader whatever the url is; without a declared type the suffixes
  of the url decide, and \<^verbatim>\<open>.csv\<close> is looked for before \<^verbatim>\<open>.json\<close>, with CSV as the fallback when
  neither is there.
\<close>

theorem reader_selection:
  assumes "file ''url'' = Some (YStr u)" and "\<not> truthy (get_or file ''skip_file'' (YBool False))"
  shows "(file ''type'' = Some (YStr ''csv'') \<longrightarrow> load_file w file = with_progress u (load_csv w file))
       \<and> (file ''type'' = Some (YStr ''json'') \<longrightarrow> load_file w file = with_progress u (load_json w file))
       \<and> (file ''type'' = None \<longrightarrow>
            load_file w file =
              with_progress u
                (if ''.csv'' \<in> set (suffixes u) then load_csv w file
                 else if ''.json'' \<in> set (suffixes u) then load_json w file
                 else load_csv w file))"
  by (simp add: load_file_dispatch [OF assms] get_or_def)

theorem reader_selection_witness:
  "load_file sample_world [''url'' \<mapsto> YStr ''data.json'', ''cql'' \<mapsto> YStr ''Q'', ''type'' \<mapsto> YStr ''csv'']
     = with_progress ''data.json''
         (load_csv sample_world [''url'' \<mapsto> YStr ''data.json'', ''cql'' \<mapsto> YStr ''Q'', ''type'' \<mapsto> YStr ''csv''])
   \<and> load_file sample_world [''url'' \<mapsto> YStr ''data.csv'', ''cql'' \<mapsto> YStr ''Q'', ''type'' \<mapsto> YStr ''json'']
     = with_progress ''data.csv''
         (load_json sample_world [''url'' \<mapsto> YStr ''data.csv'', ''cql'' \<mapsto> YStr ''Q'', ''type'' \<mapsto> YStr ''json''])
   \<and> load_file sample_world [''url'' \<mapsto> YStr ''data.json'', ''cql'' \<mapsto> YStr ''Q'']
     = with_progress ''data.json''
         (load_json sample_world [''url'' \<mapsto> YStr ''data.json'', ''cql'' \<mapsto> YStr ''Q''])"
proof -
  have sfx: "suffixes ''data.json'' = [''.json'']"
    by code_simp
  show ?thesis
    using reader_selection
        [of "[''url'' \<mapsto> YStr ''data.json'', ''cql'' \<mapsto> YStr ''Q'', ''type'' \<mapsto> YStr ''csv'']"
            "''data.json''" sample_world]
      reader_selection
        [of "[''url'' \<mapsto> YStr ''data.csv'', ''cql'' \<mapsto> YStr ''Q'', ''type'' \<mapsto> YStr ''json'']"
            "''data.csv''" sample_world]
      reader_selection
        [of "[''url'' \<mapsto> YStr ''data.json'', ''cql'' \<mapsto> YStr ''Q'']" "''data.json''" sample_world]
    by (simp add: get_or_def sfx)
qed

text \<open>
  The claim as stated, with \<^verbatim>\<open>.json\<close> looked for first, fails on a url that has both suffixes:
  the file goes to the CSV reader, and what that does differs from what the JSON reader
  would have done.
\<close>

theorem json_suffix_not_first_counterexample:
  "''.json'' \<in> set (suffixes ''data.csv.json'')
   \<and> load_file sample_world [''url'' \<mapsto> YStr ''data.csv.json'', ''cql'' \<mapsto> YStr ''Q'']
       = with_progress ''data.csv.json''
           (load_csv sample_world [''url'' \<mapsto> YStr ''data.csv.json'', ''cql'' \<mapsto> YStr ''Q''])
   \<and> load_file sample_world [''url'' \<mapsto> YStr ''data.csv.json'', ''cql'' \<mapsto> YStr ''Q'']
       \<noteq> with_progress ''data.csv.json''
           (load_json sample_world [''url'' \<mapsto> YStr ''data.csv.json'', ''cql'' \<mapsto> YStr ''Q''])"
  by code_simp

subsection \<open>Unknown declared types\<close>

lemma unknown_type_load_file:
  assumes "file ''url'' = Some (YStr u)" and "\<not> truthy (get_or file ''skip_file'' (YBool False))"
    and "file ''type'' = Some t" and "truthy t"
    and "t \<noteq> YStr ''csv''" and "t \<noteq> YStr ''json''" and "t \<noteq> YStr ''NA''"
  shows "load_file w file = (unknown_type_report u t, None)"
proof -
  have t: "get_or file ''type'' (YStr ''NA'') = t"
    using assms(3,4) by (simp add: get_or_def)
  show ?thesis
    using assms(5-7)
    by (simp add: load_file_dispatch [OF assms(1,2)] t with_progress_def unknown_type_report_def)
qed

text \<open>
  Claim C10, amended. For a file entry with a string url that is not skipped and declares a
  type that is given (truthy) and is none of csv, json and NA: \<^verbatim>\<open>load_file\<close> prints its two
  progress lines with the error line between them and returns normally; it calls
  \<^verbatim>\<open>file_handle\<close> not once and sends no batch; and the loop of \<^verbatim>\<open>main\<close> goes on with the files
  after it, with or without a base path.
\<close>

theorem unknown_type_reported:
  assumes "file ''url'' = Some (YStr u)" and "\<not> truthy (get_or file ''skip_file'' (YBool False))"
    and "file ''type'' = Some t" and "truthy t"
    and "t \<noteq> YStr ''csv''" and "t \<noteq> YStr ''json''" and "t \<noteq> YStr ''NA''"
  shows "load_file w file = (unknown_type_report u t, None)
       \<and> transport_calls (fst (load_file w file)) = [] \<and> batches (fst (load_file w file)) = []
       \<and> main_files w None (file # files) =
           (unknown_type_report u t @ fst (main_files w None files), snd (main_files w None files))
       \<and> main_files w (Some (YStr b)) (file # files) =
           (unknown_type_report (b @ u) t @ fst (main_files w (Some (YStr b)) files),
            snd (main_files w (Some (YStr b)) files))"
proof -
  have lf: "load_file w file = (unknown_type_report u t, None)"
    by (rule unknown_type_load_file [OF assms])
  have "load_file w (file(''url'' \<mapsto> YStr (b @ u))) = (unknown_type_report (b @ u) t, None)"
    using assms by (intro unknown_type_load_file) (simp_all add: get_or_def)
  then show ?thesis
    using assms(1) by (simp add: lf unknown_type_report_def split: prod.splits)
qed

theorem unknown_type_reported_witness:
  "load_file sample_world [''url'' \<mapsto> YStr ''a.xml'', ''cql'' \<mapsto> YStr ''Q'', ''type'' \<mapsto> YStr ''xml'']
     = (unknown_type_report ''a.xml'' (YStr ''xml''), None)
   \<and> main_files sample_world None
        [[''url'' \<mapsto> YStr ''a.xml'', ''cql'' \<mapsto> YStr ''Q'', ''type'' \<mapsto> YStr ''xml''],
         [''url'' \<mapsto> YStr ''b.csv'', ''cql'' \<mapsto> YStr ''Q'', ''skip_file'' \<mapsto> YBool True]]
     = (unknown_type_report ''a.xml'' (YStr ''xml'') @ [Stdout [YStr ''Skipping this file: b.csv'']],
        None)"
proof -
  let ?f = "[''url'' \<mapsto> YStr ''a.xml'', ''cql'' \<mapsto> YStr ''Q'', ''type'' \<mapsto> YStr ''xml'']"
  let ?g = "[''url'' \<mapsto> YStr ''b.csv'', ''cql'' \<mapsto> YStr ''Q'', ''skip_file'' \<mapsto> YBool True]"
  have rest: "main_files sample_world None [?g] = ([Stdout [YStr ''Skipping this file: b.csv'']], None)"
    by (simp add: load_file_def get_or_def)
  have "load_file sample_world ?f = (unknown_type_report ''a.xml'' (YStr ''xml''), None)
       \<and> transport_calls (fst (load_file sample_world ?f)) = []
       \<and> batches (fst (load_file sample_world ?f)) = []
       \<and> main_files sample_world None (?f # [?g]) =
           (unknown_type_report ''a.xml'' (YStr ''xml'') @ fst (main_files sample_world None [?g]),
            snd (main_files sample_world None [?g]))
       \<and> main_files sample_world (Some (YStr ''s3://b/'')) (?f # [?g]) =
           (unknown_type_report (''s3://b/'' @ ''a.xml'') (YStr ''xml'') @
              fst (main_files sample_world (Some (YStr ''s3://b/'')) [?g]),
            snd (main_files sample_world (Some (YStr ''s3://b/'')) [?g]))"
    by (rule unknown_type_reported) (simp_all add: get_or_def)
  then show ?thesis
    by (simp only: rest fst_conv snd_conv simp_thms)
qed

text \<open>
  The claim as stated fails for the declared type NA, which \<^verbatim>\<open>load_file\<close> takes for no
  declaration: the file is opened and sent through the CSV reader.
\<close>

theorem type_NA_dispatched_counterexample:
  "transport_calls (fst (load_file sample_world
      [''url'' \<mapsto> YStr ''people'', ''cql'' \<mapsto> YStr ''Q'', ''type'' \<mapsto> YStr ''NA'']))
     = [(YStr ''people'', YStr ''none'')]
   \<and> batches (fst (load_file sample_world
      [''url'' \<mapsto> YStr ''people'', ''cql'' \<mapsto> YStr ''Q'', ''type'' \<mapsto> YStr ''NA'']))
     = [[PDict [(SStr ''id'', Scalar (SStr ''1'')), (SStr ''name'', Scalar (SStr ''Alice''))],
         PDict [(SStr ''id'', Scalar (SStr ''2'')), (SStr ''name'', Scalar (SStr ''Bob''))],
         PDict [(SStr ''id'', Scalar (SStr ''3'')), (SStr ''name'', Scalar (SStr ''''))]]]"
  by code_simp

section \<open>Chunks\<close>

lemma chunks_pos: "0 < n \<Longrightarrow> xs \<noteq> [] \<Longrightarrow> chunks n xs = take n xs # chunks n (drop n xs)"
  by (cases xs) simp_all

lemma chunks_short: "xs \<noteq> [] \<Longrightarrow> length xs \<le> n \<Longrightarrow> chunks n xs = [xs]"
  by (cases xs) auto

lemma chunks_full: "0 < n \<Longrightarrow> length xs = n \<Longrightarrow> chunks n (xs @ ys) = xs # chunks n ys"
  by (cases xs) auto


lemma chunks_map: "chunks n (map f xs) = map (map f) (chunks n xs)"
proof (induction n xs rule: chunks.induct)
  case (1 n)
  then show ?case by simp
next
  case (2 n x xs)
  show ?case
  proof (cases "n = 0")
    case True
    then show ?thesis by simp
  next
    case False
    have rhs: "chunks n (x # xs) = take n (x # xs) # chunks n (drop n (x # xs))"
      using False by simp
    have "chunks n (map f (x # xs)) =
            take n (map f (x # xs)) # chunks n (drop n (map f (x # xs)))"
      using False by (intro chunks_pos) simp_all
    also have "\<dots> = map f (take n (x # xs)) # chunks n (map f (drop n (x # xs)))"
      by (simp only: take_map drop_map)
    also have "\<dots> = map f (take n (x # xs)) # map (map f) (chunks n (drop n (x # xs)))"
      using 2 False by simp
    finally show ?thesis
      by (simp only: rhs list.map)
  qed
qed

lemma length_chunks_Suc:
  "0 < n \<Longrightarrow> xs \<noteq> [] \<Longrightarrow> length (chunks n xs) = Suc ((length xs - 1) div n)"
proof (induction n xs rule: chunks.induct)
  case (1 n)
  then show ?case by simp
next
  case (2 n x xs)
  show ?case
  proof (cases "drop n (x # xs) = []")
    case True
    then have "length xs < n" by simp
    then show ?thesis using "2.prems" True by simp
  next
    case False
    then have len: "n \<le> length xs" by simp
    have "length (chunks n (x # xs)) = Suc (length (chunks n (drop n (x # xs))))"
      using "2.prems" by simp
    also have "\<dots> = Suc (Suc ((length (drop n (x # xs)) - 1) div n))"
      using "2.IH" "2.prems" False by simp
    also have "length (drop n (x # xs)) - 1 = length xs - n"
      by simp
    also have "Suc ((length xs - n) div n) = (length xs - n + n) div n"
      using "2.prems" by (subst div_add_self2) auto
    also have "length xs - n + n = length (x # xs) - 1"
      using len by simp
    finally show ?thesis .
  qed
qed

lemma length_chunks:
  assumes n: "0 < n"
  shows "length (chunks n xs) = (length xs + n - 1) div n"
proof (cases xs)
  case Nil
  then show ?thesis using n by simp
next
  case (Cons x ys)
  have "(length xs + n - 1) div n = (length ys + n) div n"
    using Cons by simp
  also have "\<dots> = Suc (length ys div n)"
    using n by (subst div_add_self2) auto
  finally show ?thesis
    using length_chunks_Suc [OF n, of xs] Cons by simp
qed

lemma chunks_sizes:
  assumes "0 < n" and "i < length (chunks n xs)"
  shows "length (chunks n xs ! i) =
           (if Suc i < length (chunks n xs) then n
            else if length xs mod n = 0 then n else length xs mod n)"
  using assms
proof (induction n xs arbitrary: i rule: chunks.induct)
  case (1 n)
  then show ?case by simp
next
  case (2 n x xs)
  have unfold: "chunks n (x # xs) = take n (x # xs) # chunks n (drop n (x # xs))"
    using "2.prems" by simp
  show ?case
  proof (cases "drop n (x # xs) = []")
    case True
    then have le: "length (x # xs) \<le> n" by simp
    then have "chunks n (x # xs) = [x # xs]" by (intro chunks_short) simp_all
    moreover have "(if length (x # xs) mod n = 0 then n else length (x # xs) mod n) = length (x # xs)"
      using le by (cases "length (x # xs) = n") auto
    ultimately show ?thesis using "2.prems" by (simp del: chunks.simps)
  next
    case False
    then have len: "n < length (x # xs)" by simp
    then obtain y ys where rest: "drop n (x # xs) = y # ys"
      using False by (cases "drop n (x # xs)") auto
    have modeq: "length (drop n (x # xs)) mod n = length (x # xs) mod n"
      using len by (simp add: le_mod_geq)
    show ?thesis
    proof (cases i)
      case 0
      have "chunks n (y # ys) \<noteq> []"
        using "2.prems"(1) by simp
      then show ?thesis using 0 unfold len rest by (simp del: chunks.simps)
    next
      case (Suc j)
      then have j: "j < length (chunks n (drop n (x # xs)))"
        using "2.prems" unfold by simp
      have "length (chunks n (x # xs) ! i) = length (chunks n (drop n (x # xs)) ! j)"
        using unfold Suc by simp
      also have "\<dots> = (if Suc j < length (chunks n (drop n (x # xs))) then n
            else if length (drop n (x # xs)) mod n = 0 then n else length (drop n (x # xs)) mod n)"
        using "2.IH" "2.prems"(1) j by simp
      finally show ?thesis
        using unfold Suc modeq by (simp del: chunks.simps)
    qed
  qed
qed


section \<open>The batches of the two readers\<close>

lemma batches_append: "batches (xs @ ys) = batches xs @ batches ys"
  by (induction xs rule: batches.induct) simp_all

lemma get_params_no_batches: "batches (fst (get_params file)) = []"
  by (simp add: get_params_def Let_def split: option.splits)

lemma json_loop_chunks:
  assumes "skip_records p = YInt (int k)" and "chunk_size p = YInt (int c)"
    and "length rows < c" and "Scalar SNone \<notin> set its"
  shows "\<exists>out n rest. json_loop p its recnum chunk_num rows = (out, Inr (n, rest))
           \<and> length rest < c
           \<and> batches out @ (if rest = [] then [] else [rest]) = chunks c (rows @ drop (k - recnum) its)"
  using assms(3,4)
proof (induction its arbitrary: recnum chunk_num rows)
  case Nil
  then show ?case by (cases "rows = []") (simp_all add: chunks_short)
next
  case (Cons row its)
  have row: "row \<noteq> Scalar SNone" and its: "Scalar SNone \<notin> set its"
    using Cons.prems(2) by auto
  have c: "0 < c" using Cons.prems(1) by simp
  then have nil: "length ([] :: pyobj list) < c" by simp
  show ?case
  proof (cases "k \<le> recnum")
    case past: True
    then have drop0: "drop (k - recnum) (row # its) = row # its" "k - Suc recnum = 0"
      by simp_all
    show ?thesis
    proof (cases "Suc (length rows) = c")
      case True
      obtain out n rest where
        IH: "json_loop p its (Suc recnum) (Suc chunk_num) [] = (out, Inr (n, rest))"
          "length rest < c"
          "batches out @ (if rest = [] then [] else [rest]) = chunks c ([] @ drop (k - Suc recnum) its)"
        using Cons.IH [OF nil its, of "Suc recnum" "Suc chunk_num"] by blast
      have "chunks c (rows @ row # its) = (rows @ [row]) # chunks c its"
        using chunks_full [of c "rows @ [row]" its] c True by simp
      then show ?thesis
        using IH past True row assms(1,2) drop0 by simp
    next
      case False
      then have less: "length (rows @ [row]) < c"
        using Cons.prems(1) by simp
      obtain out n rest where
        IH: "json_loop p its (Suc recnum) chunk_num (rows @ [row]) = (out, Inr (n, rest))"
          "length rest < c"
          "batches out @ (if rest = [] then [] else [rest]) = chunks c ((rows @ [row]) @ drop (k - Suc recnum) its)"
        using Cons.IH [OF less its, of "Suc recnum" chunk_num] by blast
      then show ?thesis
        using past False row assms(1,2) drop0 by simp
    qed
  next
    case False
    then have drop_Suc: "drop (k - recnum) (row # its) = drop (k - Suc recnum) its"
      by (simp add: Suc_diff_Suc drop_Cons')
    obtain out n rest where
      IH: "json_loop p its (Suc recnum) chunk_num rows = (out, Inr (n, rest))"
        "length rest < c"
        "batches out @ (if rest = [] then [] else [rest]) = chunks c (rows @ drop (k - Suc recnum) its)"
      using Cons.IH [OF Cons.prems(1) its, of "Suc recnum" chunk_num] by blast
    then show ?thesis
      using False row assms(1,2) drop_Suc by simp
  qed
qed

lemma json_batches:
  assumes gp: "get_params file = (out, Inr p)" and u: "url p = YStr u"
    and s: "fetch w u (codec_of (compression p)) = Some s"
    and k: "skip_records p = YInt (int k)" and c: "chunk_size p = YInt (int c)" and pos: "0 < c"
    and rows: "Scalar SNone \<notin> set (items (ijson_decimal_as_float (json_events s)) ''item'')"
  shows "snd (load_json w file) = None"
    and "batches (fst (load_json w file)) =
           chunks c (drop k (items (ijson_decimal_as_float (json_events s)) ''item''))"
proof -
  let ?its = "items (ijson_decimal_as_float (json_events s)) ''item''"
  have nil: "length ([] :: pyobj list) < c" using pos by simp
  obtain out2 n rest where
    loop: "json_loop p ?its 0 0 [] = (out2, Inr (n, rest))"
      and "batches out2 @ (if rest = [] then [] else [rest]) = chunks c ([] @ drop (k - 0) ?its)"
    using json_loop_chunks [OF k c nil rows, of 0 0] by blast
  then have sent: "batches out2 @ (if rest = [] then [] else [rest]) = chunks c (drop k ?its)"
    by simp
  have out: "batches out = []"
    using get_params_no_batches [of "file"] gp by simp
  have lj: "load_json w file =
      (out @ [Opened (url p) (compression p)] @ out2 @
         (if length rest > 0 then [ChunkLine (url p) n, Executed (cql p) rest] else []), None)"
    by (simp add: load_json_def gp file_handle_def u s loop)
  show "snd (load_json w file) = None"
    by (simp add: lj)
  show "batches (fst (load_json w file)) = chunks c (drop k ?its)"
    using sent out by (cases "rest = []") (simp_all add: lj batches_append)
qed

lemma fill_cell: "(case to_cell x of NaN \<Rightarrow> v | Text s \<Rightarrow> s) = (if x \<in> set na_values then v else x)"
  by (simp add: to_cell_def)

lemma to_dict_records_parse:
  "to_dict_records header (fillna '''' (map (parse_line (length header)) rows)) =
     map (record_of header) rows"
  by (simp add: to_dict_records_def fillna_def parse_line_def record_of_def fill_cell comp_def)

lemma batches_Executed: "batches (map (\<lambda>rows. Executed q (f rows)) xs) = map f xs"
  by (induction xs) simp_all

lemma csv_batches:
  assumes gp: "get_params file = (out, Inr p)" and u: "url p = YStr u"
    and s: "fetch w u (codec_of (compression p)) = Some s"
    and sep: "field_sep p = YStr sep"
    and header: "header = py_split sep (py_strip (header_line s))" and dist: "distinct header"
    and k: "skip_records p = YInt (int k)" and c: "chunk_size p = YInt (int c)" and pos: "0 < c"
  shows "snd (load_csv w file) = None"
    and "batches (fst (load_csv w file)) =
           (if accepted (surplus w) (length header) (drop k (data_lines s)) = [] then [[]]
            else chunks c (map (record_of header)
                   (accepted (surplus w) (length header) (drop k (data_lines s)))))"
proof -
  let ?kept = "accepted (surplus w) (length header) (drop k (data_lines s))"
  have args: "csv_arguments header p = Inr (k, c)"
    using dist pos by (simp add: csv_arguments_def k c)
  have out: "batches out = []"
    using get_params_no_batches [of "file"] gp by simp
  have lc: "load_csv w file =
      (out @ [Opened (url p) (compression p)] @
         map (\<lambda>rows. Executed (cql p) (to_dict_records header (fillna '''' rows)))
           (read_csv (surplus w) header k c (data_lines s)), None)"
    by (simp add: load_csv_def gp file_handle_def u s sep header [symmetric] args)
  show "snd (load_csv w file) = None"
    by (simp add: lc)
  have "batches (fst (load_csv w file)) =
          map (\<lambda>rows. to_dict_records header (fillna '''' rows))
            (read_csv (surplus w) header k c (data_lines s))"
    using out by (simp add: lc batches_append batches_Executed)
  also have "\<dots> = (if ?kept = [] then [[]] else chunks c (map (record_of header) ?kept))"
  proof (cases "?kept = []")
    case True
    then show ?thesis
      by (simp add: read_csv_def to_dict_records_def fillna_def)
  next
    case False
    have "map (\<lambda>rows. to_dict_records header (fillna '''' rows))
            (chunks c (map (parse_line (length header)) ?kept)) =
          map (\<lambda>rows. to_dict_records header (fillna '''' (map (parse_line (length header)) rows)))
            (chunks c ?kept)"
      by (simp add: chunks_map comp_def)
    also have "\<dots> = map (map (record_of header)) (chunks c ?kept)"
      by (simp only: to_dict_records_parse)
    also have "\<dots> = chunks c (map (record_of header) ?kept)"
      by (simp only: chunks_map)
    finally show ?thesis
      using False by (simp add: read_csv_def)
  qed
  finally show "batches (fst (load_csv w file)) =
           (if ?kept = [] then [[]] else chunks c (map (record_of header) ?kept))" .
qed


text \<open>
  The number of batches and their sizes: with N records to send, (N + c - 1) div c batches,
  each of size c but the last, whose size is N mod c, or c when that is 0. For the CSV reader
  this needs one line kept at least.
\<close>

lemma json_batches_count:
  assumes "get_params file = (out, Inr p)" and "url p = YStr u"
    and "fetch w u (codec_of (compression p)) = Some s"
    and "skip_records p = YInt (int k)" and "chunk_size p = YInt (int c)" and "0 < c"
    and "Scalar SNone \<notin> set (items (ijson_decimal_as_float (json_events s)) ''item'')"
  shows "length (batches (fst (load_json w file))) =
           (length (drop k (items (ijson_decimal_as_float (json_events s)) ''item'')) + c - 1) div c"
  using assms(6) by (simp only: json_batches(2) [OF assms] length_chunks)

lemma csv_batches_count:
  assumes "get_params file = (out, Inr p)" and "url p = YStr u"
    and "fetch w u (codec_of (compression p)) = Some s"
    and "field_sep p = YStr sep" and "header = py_split sep (py_strip (header_line s))"
    and "distinct header"
    and "skip_records p = YInt (int k)" and "chunk_size p = YInt (int c)" and "0 < c"
    and "accepted (surplus w) (length header) (drop k (data_lines s)) \<noteq> []"
  shows "length (batches (fst (load_csv w file))) =
           (length (accepted (surplus w) (length header) (drop k (data_lines s))) + c - 1) div c"
  using assms(9,10) by (simp add: csv_batches(2) [OF assms(1-9)] length_chunks)

lemma csv_no_lines_one_batch:
  assumes "get_params file = (out, Inr p)" and "url p = YStr u"
    and "fetch w u (codec_of (compression p)) = Some s"
    and "field_sep p = YStr sep" and "header = py_split sep (py_strip (header_line s))"
    and "distinct header"
    and "skip_records p = YInt (int k)" and "chunk_size p = YInt (int c)" and "0 < c"
    and "accepted (surplus w) (length header) (drop k (data_lines s)) = []"
  shows "batches (fst (load_csv w file)) = [[]]"
  using assms(10) by (simp add: csv_batches(2) [OF assms(1-9)])



section \<open>Skipping records\<close>




section \<open>Lines with too few fields\<close>





section \<open>Files without records\<close>

text \<open>
  Claim C4, at a header-only CSV file and at an empty JSON array, with the defaults: the
  CSV reader sends one batch, which is empty, and the JSON reader sends none. (For the
  batches of the JSON reader in general and of the CSV reader when it keeps at least one
  line, see \<open>json_batches\<close> and \<open>csv_batches\<close> with \<open>length_chunks\<close> and \<open>chunks_sizes\<close>; for
  a CSV reader that keeps no line, \<open>csv_no_lines_one_batch\<close>.)
\<close>

theorem empty_csv_sends_empty_batch:
  "batches (fst (load_csv bare_world [''url'' \<mapsto> YStr ''empty.csv'', ''cql'' \<mapsto> YStr ''Q''])) = [[]]
   \<and> batches (fst (load_json bare_world [''url'' \<mapsto> YStr ''empty.json'', ''cql'' \<mapsto> YStr ''Q''])) = []"
  by code_simp


section \<open>Numbers in JSON\<close>

lemma number_events_carry_strings:
  "(prefix, ''number'', v) \<in> set (ijson_decimal_as_float events) \<Longrightarrow> \<exists>s. v = SStr s"
  by (auto simp: ijson_decimal_as_float_def)

lemma other_events_unchanged:
  "event \<noteq> ''number'' \<Longrightarrow>
     ((prefix, event, v) \<in> set (ijson_decimal_as_float events)) = ((prefix, event, v) \<in> set events)"
  by (force simp: ijson_decimal_as_float_def)

text \<open>
  Claim C1, at the JSON text \<^verbatim>\<open>[{"a": 3.14000000000000012}]\<close>: the record that is sent holds,
  under \<^verbatim>\<open>a\<close>, the decimal string of the literal and not a number.
\<close>

theorem number_exposed_as_string:
  "load_json sample_world [''url'' \<mapsto> YStr ''pi.json'', ''cql'' \<mapsto> YStr ''Q''] =
     ([Opened (YStr ''pi.json'') (YStr ''none''),
       ChunkLine (YStr ''pi.json'') 0,
       Executed (YStr ''Q'') [PDict [(SStr ''a'', Scalar (SStr ''3.14000000000000012''))]]],
      None)"
  by code_simp

end
